theory Spec2Isabelle
  imports Main "HOL-Library.Word"
begin

section \<open>Incremental invoice synchronisation: a shallow embedding\<close>

text \<open>
  The development follows the Python sources \<^verbatim>\<open>crypto.py\<close>, \<^verbatim>\<open>client.py\<close> and
  \<^verbatim>\<open>fetch_invoices.py\<close>. Methods keep their names without the leading underscore
  (\<^verbatim>\<open>_save_invoice\<close> is \<open>save_invoice\<close>). Every exception of the source is a value of
  \<open>error\<close>; a method that mutates the fetcher returns the updated fetcher next to its
  result, so the fetcher reached when an exception is raised stays observable.
\<close>

subsection \<open>Bytes and errors\<close>

type_synonym byte = "8 word"
type_synonym bytes = "byte list"

datatype error =
    IndexError
  | KeyError string
  | TypeError
  | HTTPError
  | ValueError
  | BadZipFile
  | JSONDecodeError
  | OSError
  | NoAccessToken
    \<comment> \<open>\<^verbatim>\<open>raise Exception("Brak tokena dostepowego ...")\<close>\<close>
  | AuthFailed string
    \<comment> \<open>\<^verbatim>\<open>raise Exception(f"Uwierzytelnianie nie powiodlo sie: {description}")\<close>\<close>
  | AuthTimeout
    \<comment> \<open>\<^verbatim>\<open>raise Exception("Timeout podczas oczekiwania na uwierzytelnienie")\<close>\<close>
  | ExportFailed string
    \<comment> \<open>\<^verbatim>\<open>raise Exception(f"Eksport nie powiodl sie: {description}")\<close>\<close>
  | ExportTimeout
    \<comment> \<open>\<^verbatim>\<open>raise Exception("Timeout podczas oczekiwania na eksport")\<close>\<close>

subsection \<open>crypto.py: symmetric decryption\<close>

text \<open>
  The block cipher itself is the \<^verbatim>\<open>cryptography\<close> package, not code of this
  repository: \<open>decrypt_aes\<close> takes it as a parameter, a function from key, IV and
  ciphertext to the raw CBC decryption (\<^verbatim>\<open>decryptor.update(..) + decryptor.finalize()\<close>),
  or to the exception the package raises.
\<close>

type_synonym cipher = "bytes \<Rightarrow> bytes \<Rightarrow> bytes \<Rightarrow> error + bytes"

text \<open>
  Python's slice \<^verbatim>\<open>xs[:-n]\<close> for \<open>n \<ge> 0\<close>: \<^verbatim>\<open>xs[:-0]\<close> is \<^verbatim>\<open>xs[:0]\<close>, the empty
  sequence; otherwise the stop index \<open>len xs - n\<close> is clamped at 0.
\<close>

definition slice_to_neg :: "'a list \<Rightarrow> nat \<Rightarrow> 'a list" where
  "slice_to_neg xs n = (if n = 0 then [] else take (length xs - n) xs)"

text \<open>
  \<^verbatim>\<open>decrypted[-1]\<close> raises IndexError on empty bytes; the value of the last byte is
  used as the slice bound without any check.
\<close>

definition decrypt_aes :: "cipher \<Rightarrow> bytes \<Rightarrow> bytes \<Rightarrow> bytes \<Rightarrow> error + bytes" where
  "decrypt_aes cbc encrypted_data key iv =
     (case cbc key iv encrypted_data of
        Inl e \<Rightarrow> Inl e
      | Inr decrypted \<Rightarrow>
          (if decrypted = [] then Inl IndexError
           else let padding_length = unat (last decrypted)
                in Inr (slice_to_neg decrypted padding_length)))"

text \<open>
  PKCS#7 padding to a block size of 16, as an encryption fixture applies it before the
  cipher: between 1 and 16 bytes, each holding the number of bytes added.
\<close>

definition pkcs7_pad :: "bytes \<Rightarrow> bytes" where
  "pkcs7_pad m = (let p = 16 - length m mod 16 in m @ replicate p (of_nat p))"

subsection \<open>Replies of the platform\<close>

text \<open>
  The JSON dictionaries the client returns, with the keys the fetcher reads. A value read
  with \<^verbatim>\<open>d['k']\<close> or \<^verbatim>\<open>d.get('k')\<close> is an option: \<open>None\<close> when the key is
  missing, so that \<^verbatim>\<open>d['k']\<close> can raise KeyError.
\<close>

type_synonym part = "string option"
  \<comment> \<open>one element of \<^verbatim>\<open>package['parts']\<close>: its \<^verbatim>\<open>'url'\<close>\<close>

record package =
  parts :: "part list option"
  isTruncated :: "bool option"
  lastPermanentStorageDate :: "string option"
  permanentStorageHwmDate :: "string option"

text \<open>
  \<open>status_code\<close> is \<^verbatim>\<open>status.get('status', {}).get('code')\<close> and \<open>description\<close> is
  \<^verbatim>\<open>status.get('status', {}).get('description')\<close>. \<open>package\<close> is \<open>None\<close> when
  \<^verbatim>\<open>status.get('package')\<close> is falsy: the key is missing, null or an empty dictionary.
\<close>

record status_response =
  status_code :: "int option"
  description :: "string option"
  package :: "package option"

record challenge_data =
  challenge :: "string option"
  timestampMs :: "int option"

record auth_response =
  auth_referenceNumber :: "string option"
  authenticationToken :: "string option"

record export_response =
  referenceNumber :: "string option"
  encryption_key :: bytes
  encryption_iv :: bytes

text \<open>
  A ZIP archive as \<^verbatim>\<open>zipfile\<close> presents it: the entries in directory order, each with
  its name and what reading it gives. \<open>metadata\<close> is what the fetcher uses of the parsed
  \<^verbatim>\<open>_metadata.json\<close>: the \<^verbatim>\<open>'ksefNumber'\<close> of each element of \<^verbatim>\<open>metadata['invoices']\<close>,
  or \<open>None\<close> when the metadata is empty or has no \<^verbatim>\<open>'invoices'\<close> key.
\<close>

type_synonym zip_archive = "(string \<times> (error + bytes)) list"
type_synonym metadata = "string option list option"

record datetime =
  year :: nat
  month :: nat
  day :: nat
  hour :: nat
  minute :: nat
  second :: nat
  microsecond :: nat

subsection \<open>The environment\<close>

text \<open>
  Everything outside the repository is a field of \<open>world\<close>: the cipher, the clock
  (\<^verbatim>\<open>datetime.now(timezone.utc)\<close> when a subject type is processed), the replies of the
  platform, the ZIP and JSON parsers, the file that a name in the directory of documents
  denotes (\<open>resolve\<close>: \<^verbatim>\<open>FAKTURY_DIR / filename\<close> as \<^verbatim>\<open>pathlib\<close> joins it and the file
  system follows it, so that \<^verbatim>\<open>a.xml\<close> and \<^verbatim>\<open>./a.xml\<close> are one file) and the outcome of
  opening a file for writing.
  A reply is \<open>Inl\<close> when the call raises (transport failure, \<^verbatim>\<open>raise_for_status\<close>).
  Status replies are indexed by the number of the attempt within one polling loop.
\<close>

record world =
  aes_cbc :: cipher
  clock :: "string \<Rightarrow> datetime"
  challenge_reply :: "error + challenge_data"
  encrypt_token_reply :: "string \<Rightarrow> int \<Rightarrow> error + string"
  submit_auth_reply :: "string \<Rightarrow> string \<Rightarrow> error + auth_response"
  auth_status_reply :: "string \<Rightarrow> string \<Rightarrow> nat \<Rightarrow> error + status_response"
  redeem_reply :: "string \<Rightarrow> error + string option"
  export_reply :: "string \<Rightarrow> string \<Rightarrow> error + export_response"
  export_status_reply :: "string \<Rightarrow> nat \<Rightarrow> error + status_response"
  part_reply :: "string \<Rightarrow> error + bytes"
  unzip :: "bytes \<Rightarrow> error + zip_archive"
  json_load :: "bytes \<Rightarrow> error + metadata"
  resolve :: "string \<Rightarrow> string"
  open_wb :: "string \<Rightarrow> error option"

subsection \<open>The fetcher and its effects\<close>

datatype event =
    ChallengeCall
  | SubmitAuthCall
  | AuthStatusCall string
  | RedeemCall
  | ExportCall string string
  | ExportStatusCall string
  | Sleep nat
  | Download string
  | WriteFile string
  | SaveState

record invoice_record =
  ksefNumber :: string
  filename :: string

text \<open>
  \<open>state\<close>, \<open>downloaded_invoices\<close> and \<open>new_invoices\<close> are the attributes of
  \<^verbatim>\<open>InvoiceFetcher\<close>; \<open>ksef_token\<close> and \<open>access_token\<close> those of its client.
  \<open>state_file\<close> is the content of \<^verbatim>\<open>.ksef_state.json\<close> (\<open>None\<close>: no such file) and
  \<open>faktury\<close> the directory of documents, keyed by the file that a name denotes
  (\<open>resolve\<close>). \<open>trace\<close> records the calls to the outside in the order they are made.
\<close>

record fetcher =
  ksef_token :: string
  access_token :: "string option"
  state :: "string \<rightharpoonup> string"
  downloaded_invoices :: "string set"
  new_invoices :: "invoice_record list"
  state_file :: "(string \<rightharpoonup> string) option"
  faktury :: "string \<rightharpoonup> bytes"
  trace :: "event list"

definition log :: "event \<Rightarrow> fetcher \<Rightarrow> fetcher" where
  "log e s = s\<lparr>trace := trace s @ [e]\<rparr>"

text \<open>\<^verbatim>\<open>InvoiceFetcher.__init__\<close> with \<^verbatim>\<open>_load_state\<close>, on a client not yet authenticated.\<close>

definition load_state :: "(string \<rightharpoonup> string) option \<Rightarrow> (string \<rightharpoonup> string)" where
  "load_state file = (case file of Some m \<Rightarrow> m | None \<Rightarrow> Map.empty)"

definition init_fetcher ::
  "string \<Rightarrow> (string \<rightharpoonup> string) option \<Rightarrow> (string \<rightharpoonup> bytes) \<Rightarrow> fetcher" where
  "init_fetcher token file dir =
     \<lparr>ksef_token = token, access_token = None, state = load_state file,
      downloaded_invoices = {}, new_invoices = [], state_file = file,
      faktury = dir, trace = []\<rparr>"

definition save_state :: "fetcher \<Rightarrow> fetcher" where
  "save_state s = log SaveState (s\<lparr>state_file := Some (state s)\<rparr>)"

subsection \<open>client.py: authentication and export calls\<close>

text \<open>\<^verbatim>\<open>if not self.access_token\<close>: no token, or an empty one.\<close>

definition no_token :: "fetcher \<Rightarrow> bool" where
  "no_token s = (case access_token s of None \<Rightarrow> True | Some t \<Rightarrow> t = [])"

text \<open>
  \<^verbatim>\<open>_wait_for_auth_completion\<close>: \<open>auth_poll\<close> is the body of
  \<^verbatim>\<open>for _ in range(max_attempts)\<close> with \<open>n\<close> iterations left, \<open>k\<close> the number of the
  attempt. A missing code makes \<^verbatim>\<open>status_code >= 400\<close> raise TypeError.
\<close>

fun auth_poll ::
  "world \<Rightarrow> string \<Rightarrow> string \<Rightarrow> nat \<Rightarrow> nat \<Rightarrow> fetcher \<Rightarrow> (error + unit) \<times> fetcher" where
  "auth_poll w reference_number auth_token 0 k s = (Inl AuthTimeout, s)"
| "auth_poll w reference_number auth_token (Suc n) k s =
     (let s1 = log (AuthStatusCall reference_number) s in
      case auth_status_reply w reference_number auth_token k of
        Inl e \<Rightarrow> (Inl e, s1)
      | Inr data \<Rightarrow>
          (case status_code data of
             None \<Rightarrow> (Inl TypeError, s1)
           | Some c \<Rightarrow>
               if c = 200 then (Inr (), s1)
               else if c \<ge> 400 then
                 (Inl (AuthFailed (case description data of
                                     None \<Rightarrow> ''Unknown error'' | Some d \<Rightarrow> d)), s1)
               else auth_poll w reference_number auth_token n (Suc k) (log (Sleep 2) s1)))"

definition wait_for_auth_completion ::
  "world \<Rightarrow> string \<Rightarrow> string \<Rightarrow> nat \<Rightarrow> fetcher \<Rightarrow> (error + unit) \<times> fetcher" where
  "wait_for_auth_completion w reference_number auth_token max_attempts s =
     auth_poll w reference_number auth_token max_attempts 0 s"

text \<open>
  \<^verbatim>\<open>authenticate\<close>: challenge, encrypted token, submission, polling with the default
  \<^verbatim>\<open>max_attempts = 10\<close>, redemption of the access token.
\<close>

definition redeem_token :: "world \<Rightarrow> string \<Rightarrow> fetcher \<Rightarrow> (error + unit) \<times> fetcher" where
  "redeem_token w auth_token s =
     (let s1 = log RedeemCall s in
      case redeem_reply w auth_token of
        Inl e \<Rightarrow> (Inl e, s1)
      | Inr None \<Rightarrow> (Inl (KeyError ''accessToken''), s1)
      | Inr (Some t) \<Rightarrow> (Inr (), s1\<lparr>access_token := Some t\<rparr>))"

definition authenticate :: "world \<Rightarrow> fetcher \<Rightarrow> (error + bool) \<times> fetcher" where
  "authenticate w s =
     (let s1 = log ChallengeCall s in
      case challenge_reply w of
        Inl e \<Rightarrow> (Inl e, s1)
      | Inr cd \<Rightarrow>
      (case challenge cd of
        None \<Rightarrow> (Inl (KeyError ''challenge''), s1)
      | Some ch \<Rightarrow>
      (case timestampMs cd of
        None \<Rightarrow> (Inl (KeyError ''timestampMs''), s1)
      | Some timestamp_ms \<Rightarrow>
      (case encrypt_token_reply w (ksef_token s1) timestamp_ms of
        Inl e \<Rightarrow> (Inl e, s1)
      | Inr encrypted_token \<Rightarrow>
      (let s2 = log SubmitAuthCall s1 in
       case submit_auth_reply w encrypted_token ch of
        Inl e \<Rightarrow> (Inl e, s2)
      | Inr ar \<Rightarrow>
      (case auth_referenceNumber ar of
        None \<Rightarrow> (Inl (KeyError ''referenceNumber''), s2)
      | Some reference_number \<Rightarrow>
      (case authenticationToken ar of
        None \<Rightarrow> (Inl (KeyError ''authenticationToken''), s2)
      | Some auth_token \<Rightarrow>
      (case wait_for_auth_completion w reference_number auth_token 10 s2 of
        (Inl e, s3) \<Rightarrow> (Inl e, s3)
      | (Inr u, s3) \<Rightarrow>
      (case redeem_token w auth_token s3 of
        (Inl e, s4) \<Rightarrow> (Inl e, s4)
      | (Inr u', s4) \<Rightarrow> (Inr True, s4))))))))))"

text \<open>
  \<^verbatim>\<open>export_invoices\<close> and \<^verbatim>\<open>get_export_status\<close>: both refuse to call the platform
  without an access token. The reply of the export request carries the key and IV
  generated for it.
\<close>

definition export_invoices :: "world \<Rightarrow> string \<Rightarrow> string \<Rightarrow> fetcher \<Rightarrow> error + export_response" where
  "export_invoices w subject_type date_from s =
     (if no_token s then Inl NoAccessToken else export_reply w subject_type date_from)"

definition get_export_status :: "world \<Rightarrow> string \<Rightarrow> nat \<Rightarrow> fetcher \<Rightarrow> error + status_response" where
  "get_export_status w reference_number k s =
     (if no_token s then Inl NoAccessToken else export_status_reply w reference_number k)"

subsection \<open>fetch_invoices.py: polling the export\<close>

fun export_poll ::
  "world \<Rightarrow> string \<Rightarrow> nat \<Rightarrow> nat \<Rightarrow> fetcher \<Rightarrow> (error + status_response) \<times> fetcher" where
  "export_poll w reference_number 0 k s = (Inl ExportTimeout, s)"
| "export_poll w reference_number (Suc n) k s =
     (let s1 = log (ExportStatusCall reference_number) s in
      case get_export_status w reference_number k s1 of
        Inl e \<Rightarrow> (Inl e, s1)
      | Inr status \<Rightarrow>
          (case status_code status of
             None \<Rightarrow> (Inl TypeError, s1)
           | Some c \<Rightarrow>
               if c = 200 then (Inr status, s1)
               else if c \<ge> 400 then
                 (Inl (ExportFailed (case description status of
                                       None \<Rightarrow> ''Unknown error'' | Some d \<Rightarrow> d)), s1)
               else export_poll w reference_number n (Suc k) (log (Sleep 5) s1)))"

definition wait_for_export_completion ::
  "world \<Rightarrow> string \<Rightarrow> nat \<Rightarrow> fetcher \<Rightarrow> (error + status_response) \<times> fetcher" where
  "wait_for_export_completion w reference_number max_attempts s =
     export_poll w reference_number max_attempts 0 s"

subsection \<open>fetch_invoices.py: materialising a package\<close>

text \<open>\<^verbatim>\<open>s.endswith(suffix)\<close> and \<^verbatim>\<open>s.replace('.xml', '')\<close> (every occurrence, left to right).\<close>

definition endswith :: "string \<Rightarrow> string \<Rightarrow> bool" where
  "endswith str suffix =
     (length suffix \<le> length str \<and> drop (length str - length suffix) str = suffix)"

fun remove_xml :: "string \<Rightarrow> string" where
  "remove_xml [] = []"
| "remove_xml (c # cs) =
     (if take 4 (c # cs) = ''.xml'' then remove_xml (drop 3 cs) else c # remove_xml cs)"

text \<open>
  \<^verbatim>\<open>zf.namelist()\<close> and \<^verbatim>\<open>zf.open(name).read()\<close>; where a name occurs twice,
  \<^verbatim>\<open>zipfile\<close> opens the last entry of that name.
\<close>

definition namelist :: "zip_archive \<Rightarrow> string list" where
  "namelist zf = map fst zf"

definition zf_open :: "zip_archive \<Rightarrow> string \<Rightarrow> error + bytes" where
  "zf_open zf name =
     (case map_of (rev zf) name of None \<Rightarrow> Inl (KeyError name) | Some content \<Rightarrow> content)"

definition read_metadata :: "world \<Rightarrow> zip_archive \<Rightarrow> error + metadata" where
  "read_metadata w zf =
     (if ''_metadata.json'' \<in> set (namelist zf) then
        (case zf_open zf ''_metadata.json'' of
           Inl e \<Rightarrow> Inl e
         | Inr raw \<Rightarrow> json_load w raw)
      else Inr None)"

text \<open>
  Lines 166 to 177 of \<^verbatim>\<open>_save_invoice\<close>: the identifier of a document. The loop over
  \<^verbatim>\<open>metadata['invoices']\<close> stops at the first element whose \<^verbatim>\<open>ksefNumber\<close> followed
  by \<^verbatim>\<open>.xml\<close> is the file name; an element without the key raises KeyError. An
  identifier that is missing or empty is replaced by the file name without \<^verbatim>\<open>.xml\<close>.
\<close>

fun find_ksef_number :: "string option list \<Rightarrow> string \<Rightarrow> error + string option" where
  "find_ksef_number [] fname = Inr None"
| "find_ksef_number (entry # invs) fname =
     (case entry of
        None \<Rightarrow> Inl (KeyError ''ksefNumber'')
      | Some k \<Rightarrow> if k @ ''.xml'' = fname then Inr (Some k) else find_ksef_number invs fname)"

definition ksef_number_of :: "metadata \<Rightarrow> string \<Rightarrow> error + string" where
  "ksef_number_of md fname =
     (case (case md of None \<Rightarrow> Inr None | Some invs \<Rightarrow> find_ksef_number invs fname) of
        Inl e \<Rightarrow> Inl e
      | Inr None \<Rightarrow> Inr (remove_xml fname)
      | Inr (Some k) \<Rightarrow> Inr (if k = [] then remove_xml fname else k))"

definition save_invoice ::
  "world \<Rightarrow> zip_archive \<Rightarrow> string \<Rightarrow> metadata \<Rightarrow> fetcher \<Rightarrow> (error + unit) \<times> fetcher" where
  "save_invoice w zf fname md s =
     (case ksef_number_of md fname of
        Inl e \<Rightarrow> (Inl e, s)
      | Inr ksef_number \<Rightarrow>
          if ksef_number \<in> downloaded_invoices s then (Inr (), s)
          else if faktury s (resolve w fname) \<noteq> None then
            (Inr (), s\<lparr>downloaded_invoices := insert ksef_number (downloaded_invoices s)\<rparr>)
          else
            (case zf_open zf fname of
               Inl e \<Rightarrow> (Inl e, s)
             | Inr invoice_content \<Rightarrow>
                 (case open_wb w fname of
                    Some e \<Rightarrow> (Inl e, s)
                  | None \<Rightarrow>
                      (Inr (),
                       s\<lparr>faktury := (faktury s)(resolve w fname \<mapsto> invoice_content),
                         downloaded_invoices := insert ksef_number (downloaded_invoices s),
                         new_invoices := new_invoices s @
                           [\<lparr>ksefNumber = ksef_number, filename = fname\<rparr>],
                         trace := trace s @ [WriteFile fname]\<rparr>))))"

text \<open>The loop \<^verbatim>\<open>for filename in zf.namelist()\<close> of \<^verbatim>\<open>_process_package\<close>.\<close>

fun save_invoices ::
  "world \<Rightarrow> zip_archive \<Rightarrow> metadata \<Rightarrow> string list \<Rightarrow> fetcher \<Rightarrow> (error + unit) \<times> fetcher" where
  "save_invoices w zf md [] s = (Inr (), s)"
| "save_invoices w zf md (fname # rest) s =
     (if endswith fname ''.xml'' then
        (case save_invoice w zf fname md s of
           (Inl e, s') \<Rightarrow> (Inl e, s')
         | (Inr u, s') \<Rightarrow> save_invoices w zf md rest s')
      else save_invoices w zf md rest s)"

text \<open>The loop \<^verbatim>\<open>for part in parts\<close>: the parts are fetched and concatenated in order.\<close>

fun download_parts ::
  "world \<Rightarrow> part list \<Rightarrow> bytes \<Rightarrow> fetcher \<Rightarrow> (error + bytes) \<times> fetcher" where
  "download_parts w [] encrypted_data s = (Inr encrypted_data, s)"
| "download_parts w (p # ps) encrypted_data s =
     (case p of
        None \<Rightarrow> (Inl (KeyError ''url''), s)
      | Some part_url \<Rightarrow>
          (let s1 = log (Download part_url) s in
           case part_reply w part_url of
             Inl e \<Rightarrow> (Inl e, s1)
           | Inr part_data \<Rightarrow> download_parts w ps (encrypted_data @ part_data) s1))"

definition process_package ::
  "world \<Rightarrow> package \<Rightarrow> bytes \<Rightarrow> bytes \<Rightarrow> fetcher \<Rightarrow> (error + unit) \<times> fetcher" where
  "process_package w pkg key iv s =
     (let ps = (case parts pkg of None \<Rightarrow> [] | Some ps \<Rightarrow> ps) in
      if ps = [] then (Inr (), s)
      else
        (case download_parts w ps [] s of
           (Inl e, s1) \<Rightarrow> (Inl e, s1)
         | (Inr encrypted_data, s1) \<Rightarrow>
        (case decrypt_aes (aes_cbc w) encrypted_data key iv of
           Inl e \<Rightarrow> (Inl e, s1)
         | Inr decrypted_data \<Rightarrow>
        (case unzip w decrypted_data of
           Inl e \<Rightarrow> (Inl e, s1)
         | Inr zf \<Rightarrow>
        (case read_metadata w zf of
           Inl e \<Rightarrow> (Inl e, s1)
         | Inr md \<Rightarrow> save_invoices w zf md (namelist zf) s1)))))"

subsection \<open>fetch_invoices.py: the continuation point\<close>

text \<open>
  \<^verbatim>\<open>_update_continuation_point\<close>. \<^verbatim>\<open>if last_date:\<close> is false for a missing value and
  for the empty string.
\<close>

definition update_continuation_point :: "string \<Rightarrow> package \<Rightarrow> fetcher \<Rightarrow> fetcher" where
  "update_continuation_point subject_type pkg s =
     (let state_key = ''continuation_point_'' @ subject_type in
      if isTruncated pkg = Some True then
        (case lastPermanentStorageDate pkg of
           None \<Rightarrow> s
         | Some last_date \<Rightarrow>
             if last_date \<noteq> [] then s\<lparr>state := (state s)(state_key \<mapsto> last_date)\<rparr> else s)
      else
        (case permanentStorageHwmDate pkg of
           None \<Rightarrow> s
         | Some hwm_date \<Rightarrow>
             if hwm_date \<noteq> [] then s\<lparr>state := (state s)(state_key \<mapsto> hwm_date)\<rparr> else s))"

text \<open>
  \<^verbatim>\<open>datetime.isoformat()\<close> of a datetime in UTC: the fields are printed with leading
  zeros (\<open>zpad width n\<close>, for \<open>n < 10 ^ width\<close>), the microseconds only when they are
  not zero.
\<close>

fun zpad :: "nat \<Rightarrow> nat \<Rightarrow> string" where
  "zpad 0 n = []"
| "zpad (Suc width) n = zpad width (n div 10) @ [''0123456789'' ! (n mod 10)]"

definition isoformat :: "datetime \<Rightarrow> string" where
  "isoformat d =
     zpad 4 (year d) @ ''-'' @ zpad 2 (month d) @ ''-'' @ zpad 2 (day d) @ ''T'' @
     zpad 2 (hour d) @ '':'' @ zpad 2 (minute d) @ '':'' @ zpad 2 (second d) @
     (if microsecond d \<noteq> 0 then ''.'' @ zpad 6 (microsecond d) else []) @ ''+00:00''"

subsection \<open>fetch_invoices.py: one subject type, and the run\<close>

text \<open>
  Lines 81 to 87 of \<^verbatim>\<open>_fetch_for_subject_type\<close>: the start of the export.
  \<^verbatim>\<open>if not date_from\<close> holds for a missing cursor and for an empty one.
\<close>

definition start_date :: "world \<Rightarrow> string \<Rightarrow> fetcher \<Rightarrow> string" where
  "start_date w subject_type s =
     (let state_key = ''continuation_point_'' @ subject_type;
          now = clock w subject_type;
          first_of_month =
            isoformat (now\<lparr>day := 1, hour := 0, minute := 0, second := 0, microsecond := 0\<rparr>)
      in case state s state_key of
           None \<Rightarrow> first_of_month
         | Some d \<Rightarrow> if d = [] then first_of_month else d)"

definition fetch_for_subject_type :: "world \<Rightarrow> string \<Rightarrow> fetcher \<Rightarrow> (error + unit) \<times> fetcher" where
  "fetch_for_subject_type w subject_type s =
     (let date_from = start_date w subject_type s;
          s1 = log (ExportCall subject_type date_from) s
      in case export_invoices w subject_type date_from s1 of
           Inl e \<Rightarrow> (Inl e, s1)
         | Inr er \<Rightarrow>
         (case referenceNumber er of
           None \<Rightarrow> (Inl (KeyError ''referenceNumber''), s1)
         | Some reference_number \<Rightarrow>
         (case wait_for_export_completion w reference_number 60 s1 of
           (Inl e, s2) \<Rightarrow> (Inl e, s2)
         | (Inr status, s2) \<Rightarrow>
         (case package status of
           None \<Rightarrow> (Inr (), s2)
         | Some pkg \<Rightarrow>
         (case process_package w pkg (encryption_key er) (encryption_iv er) s2 of
           (Inl e, s3) \<Rightarrow> (Inl e, s3)
         | (Inr u, s3) \<Rightarrow> (Inr (), update_continuation_point subject_type pkg s3))))))"

definition SUBJECT_TYPES :: "string list" where
  "SUBJECT_TYPES = [''Subject1'', ''Subject2'', ''Subject3'']"

text \<open>The loop \<^verbatim>\<open>for subject_type in self.SUBJECT_TYPES\<close>.\<close>

fun fetch_subject_types :: "world \<Rightarrow> string list \<Rightarrow> fetcher \<Rightarrow> (error + unit) \<times> fetcher" where
  "fetch_subject_types w [] s = (Inr (), s)"
| "fetch_subject_types w (subject_type # rest) s =
     (case fetch_for_subject_type w subject_type s of
        (Inl e, s') \<Rightarrow> (Inl e, s')
      | (Inr u, s') \<Rightarrow> fetch_subject_types w rest s')"

text \<open>
  \<^verbatim>\<open>_format_output\<close> up to the rendering as JSON or text: the count and the list of the
  new invoices.
\<close>

definition format_output :: "fetcher \<Rightarrow> nat \<times> invoice_record list" where
  "format_output s = (length (new_invoices s), new_invoices s)"

definition fetch_invoices ::
  "world \<Rightarrow> fetcher \<Rightarrow> (error + nat \<times> invoice_record list) \<times> fetcher" where
  "fetch_invoices w s =
     (case authenticate w s of
        (Inl e, s1) \<Rightarrow> (Inl e, s1)
      | (Inr a, s1) \<Rightarrow>
          (case fetch_subject_types w SUBJECT_TYPES s1 of
             (Inl e, s2) \<Rightarrow> (Inl e, s2)
           | (Inr u, s2) \<Rightarrow> (let s3 = save_state s2 in (Inr (format_output s3), s3))))"

subsection \<open>Notions used in the statements\<close>

text \<open>
  A status reply that keeps a polling loop going: it carries a code that is neither 200
  nor at least 400.
\<close>

definition pending :: "error + status_response \<Rightarrow> bool" where
  "pending reply =
     (case reply of
        Inl e \<Rightarrow> False
      | Inr d \<Rightarrow> (case status_code d of None \<Rightarrow> False | Some c \<Rightarrow> c \<noteq> 200 \<and> c < 400))"

text \<open>The events of \<open>N\<close> attempts that each end in a sleep of \<open>delay\<close> seconds.\<close>

definition polls :: "event \<Rightarrow> nat \<Rightarrow> nat \<Rightarrow> event list" where
  "polls call delay N = concat (replicate N [call, Sleep delay])"

text \<open>The events that fetch a package part or write a document.\<close>

fun is_transfer :: "event \<Rightarrow> bool" where
  "is_transfer (Download u) = True"
| "is_transfer (WriteFile n) = True"
| "is_transfer e = False"

text \<open>
  The new invoices carry pairwise different identifiers, all of them in the set of
  downloaded identifiers.
\<close>

definition records_unique :: "fetcher \<Rightarrow> bool" where
  "records_unique s =
     (distinct (map ksefNumber (new_invoices s)) \<and>
      set (map ksefNumber (new_invoices s)) \<subseteq> downloaded_invoices s)"

text \<open>
  How a fetcher relates to a later one. \<open>grows\<close> is what materialising a package
  allows: the cursors, the state file and the access token stay, the trace is extended,
  documents and downloaded identifiers are only added and unique new invoices stay
  unique. \<open>proceeds\<close> is what processing subject types allows: the cursors may move.
\<close>

definition grows :: "fetcher \<Rightarrow> fetcher \<Rightarrow> bool" where
  "grows s s' =
     (state_file s' = state_file s \<and> state s' = state s \<and> access_token s' = access_token s \<and>
      (\<exists>t. trace s' = trace s @ t) \<and> dom (faktury s) \<subseteq> dom (faktury s') \<and>
      downloaded_invoices s \<subseteq> downloaded_invoices s' \<and>
      (records_unique s \<longrightarrow> records_unique s'))"

definition proceeds :: "fetcher \<Rightarrow> fetcher \<Rightarrow> bool" where
  "proceeds s s' =
     (state_file s' = state_file s \<and> access_token s' = access_token s \<and>
      (\<exists>t. trace s' = trace s @ t) \<and> (records_unique s \<longrightarrow> records_unique s'))"

subsection \<open>A concrete platform\<close>

text \<open>
  A platform for concrete runs. Authentication and the exports of \<^verbatim>\<open>Subject1\<close> and
  \<^verbatim>\<open>Subject2\<close> complete at the third status query; their package has one part, which
  holds the document \<^verbatim>\<open>1111-AAAA.xml\<close> and its metadata. The export of \<^verbatim>\<open>Subject3\<close>
  completes at once, without a package. The reference \<^verbatim>\<open>slow\<close> never completes and
  \<^verbatim>\<open>bad\<close> is rejected at the second query. The cipher is the identity and every name
  denotes a file of its own.
\<close>

definition demo_status :: "int \<Rightarrow> string option \<Rightarrow> package option \<Rightarrow> status_response" where
  "demo_status c d p = \<lparr>status_code = Some c, description = d, package = p\<rparr>"

definition demo_package :: package where
  "demo_package =
     \<lparr>parts = Some [Some ''https://part/1''], isTruncated = Some False,
      lastPermanentStorageDate = None,
      permanentStorageHwmDate = Some ''2024-06-15T00:00:00Z''\<rparr>"

definition demo_replies :: "string \<Rightarrow> nat \<Rightarrow> error + status_response" where
  "demo_replies r k =
     (if r = ''slow'' then Inr (demo_status 100 None None)
      else if r = ''bad'' then
        (if k < 1 then Inr (demo_status 100 None None)
         else Inr (demo_status 403 (Some ''denied'') None))
      else if r = ''Subject3'' then Inr (demo_status 200 None None)
      else if k < 2 then Inr (demo_status 100 None None)
      else Inr (demo_status 200 None (Some demo_package)))"

definition demo_world :: world where
  "demo_world =
     \<lparr>aes_cbc = (\<lambda>key iv c. Inr c),
      clock = (\<lambda>st. \<lparr>year = 2024, month = 6, day = 15, hour = 10, minute = 30,
                      second = 5, microsecond = 123\<rparr>),
      challenge_reply = Inr \<lparr>challenge = Some ''nonce'', timestampMs = Some 1718447405000\<rparr>,
      encrypt_token_reply = (\<lambda>t ts. Inr ''encrypted''),
      submit_auth_reply = (\<lambda>e c. Inr \<lparr>auth_referenceNumber = Some ''auth'',
                                          authenticationToken = Some ''auth-token''\<rparr>),
      auth_status_reply = (\<lambda>r a. demo_replies r),
      redeem_reply = (\<lambda>a. Inr (Some ''access-token'')),
      export_reply = (\<lambda>st d. Inr \<lparr>referenceNumber = Some st,
                                     encryption_key = replicate 32 7,
                                     encryption_iv = replicate 16 9\<rparr>),
      export_status_reply = demo_replies,
      part_reply = (\<lambda>u. Inr [80, 75, 1]),
      unzip = (\<lambda>b. Inr [(''_metadata.json'', Inr [123, 125]),
                          (''1111-AAAA.xml'', Inr [60, 62])]),
      json_load = (\<lambda>b. Inr (Some [Some ''1111-AAAA''])),
      resolve = (\<lambda>n. n),
      open_wb = (\<lambda>n. None)\<rparr>"

text \<open>The same platform, except that the export request of \<^verbatim>\<open>Subject2\<close> fails.\<close>

definition crash_world :: world where
  "crash_world =
     demo_world\<lparr>export_reply :=
       (\<lambda>st d. if st = ''Subject2'' then Inl HTTPError else export_reply demo_world st d)\<rparr>"

text \<open>A fetcher after a successful authentication, with no cursor and an empty directory.\<close>

definition demo_fetcher :: fetcher where
  "demo_fetcher = (init_fetcher ''token'' None Map.empty)\<lparr>access_token := Some ''access-token''\<rparr>"






section \<open>Symmetric decryption\<close>

lemma pkcs7_pad_length: "length (pkcs7_pad m) mod 16 = 0"
  unfolding pkcs7_pad_def Let_def by simp presburger

text \<open>
  C2. The claim asks that a last plaintext byte of 0, or of more than 16, makes the
  decryption fail. \<open>decrypt_aes\<close> has no such check: a block of sixteen bytes that ends in
  0 is returned as the empty plaintext, and a last byte of 32 silently drops the last 32
  bytes of a plaintext of three blocks.
\<close>

theorem decrypt_aes_accepts_bad_padding:
  "decrypt_aes (\<lambda>key iv c. Inr (replicate 15 65 @ [0])) (replicate 16 1) (replicate 32 7)
     (replicate 16 9) = Inr []
   \<and> decrypt_aes (\<lambda>key iv c. Inr (replicate 47 65 @ [32])) (replicate 48 1) (replicate 32 7)
     (replicate 16 9) = Inr (replicate 16 65)"
  by (simp add: decrypt_aes_def slice_to_neg_def)

text \<open>
  C7. Whatever the key and the IV, if the cipher's decryption undoes its encryption on
  messages of whole blocks, then \<open>decrypt_aes\<close> returns the plaintext that was padded with
  PKCS#7 and encrypted: for the empty plaintext, for one byte and for any longer one.
\<close>

theorem decrypt_aes_roundtrip:
  fixes cbc_decrypt :: cipher and cbc_encrypt :: "bytes \<Rightarrow> bytes \<Rightarrow> bytes \<Rightarrow> bytes"
  assumes inverse:
    "\<forall>m. length m mod 16 = 0 \<longrightarrow> cbc_decrypt key iv (cbc_encrypt key iv m) = Inr m"
  shows "decrypt_aes cbc_decrypt (cbc_encrypt key iv (pkcs7_pad plaintext)) key iv =
         Inr plaintext"
proof -
  define p where "p = 16 - length plaintext mod 16"
  have p: "0 < p" "p \<le> 16" by (simp_all add: p_def)
  have padded: "pkcs7_pad plaintext = plaintext @ replicate p (of_nat p)"
    by (simp add: pkcs7_pad_def p_def)
  have decrypted:
    "cbc_decrypt key iv (cbc_encrypt key iv (pkcs7_pad plaintext)) = Inr (pkcs7_pad plaintext)"
    using inverse pkcs7_pad_length [of plaintext] by simp
  have nonempty: "pkcs7_pad plaintext \<noteq> []" using p by (simp add: padded)
  have last_byte: "last (pkcs7_pad plaintext) = (of_nat p :: byte)" using p by (simp add: padded)
  have value_p: "unat (of_nat p :: byte) = p" using p by (simp add: unat_of_nat)
  show ?thesis using p
    by (simp add: decrypt_aes_def decrypted nonempty last_byte value_p slice_to_neg_def)
       (simp add: padded)
qed

theorem decrypt_aes_roundtrip_witness:
  "decrypt_aes (\<lambda>key iv c. Inr (rev c)) (rev (pkcs7_pad [])) (replicate 32 7) (replicate 16 9)
       = Inr []
   \<and> decrypt_aes (\<lambda>key iv c. Inr (rev c)) (rev (pkcs7_pad [5])) (replicate 32 7) (replicate 16 9)
       = Inr [5]
   \<and> decrypt_aes (\<lambda>key iv c. Inr (rev c)) (rev (pkcs7_pad (replicate 17 5))) (replicate 32 7)
       (replicate 16 9) = Inr (replicate 17 5)"
  using decrypt_aes_roundtrip [of "\<lambda>key iv c. Inr (rev c)" "replicate 32 7" "replicate 16 9"
      "\<lambda>key iv m. rev m" "[]"]
    decrypt_aes_roundtrip [of "\<lambda>key iv c. Inr (rev c)" "replicate 32 7" "replicate 16 9"
      "\<lambda>key iv m. rev m" "[5]"]
    decrypt_aes_roundtrip [of "\<lambda>key iv c. Inr (rev c)" "replicate 32 7" "replicate 16 9"
      "\<lambda>key iv m. rev m" "replicate 17 5"]
  by simp

section \<open>The continuation point\<close>

text \<open>
  C3. With \<^verbatim>\<open>isTruncated\<close> true and both dates present, \<open>D1\<close> a date (a non-empty
  string) other than \<open>D2\<close>, the cursor of the subject type becomes \<open>D1\<close> and not \<open>D2\<close>.
  With \<^verbatim>\<open>isTruncated\<close> false and only the high-water-mark date \<open>D2\<close> present, the
  cursor becomes \<open>D2\<close>. With neither date present the fetcher is left as it was.
\<close>

theorem update_continuation_point_rule:
  "(isTruncated pkg = Some True \<and> lastPermanentStorageDate pkg = Some D1 \<and>
      permanentStorageHwmDate pkg = Some D2 \<and> D1 \<noteq> [] \<and> D1 \<noteq> D2 \<longrightarrow>
      state (update_continuation_point subject_type pkg s)
        (''continuation_point_'' @ subject_type) = Some D1 \<and>
      state (update_continuation_point subject_type pkg s)
        (''continuation_point_'' @ subject_type) \<noteq> Some D2)
   \<and> (isTruncated pkg = Some False \<and> lastPermanentStorageDate pkg = None \<and>
      permanentStorageHwmDate pkg = Some D2 \<and> D2 \<noteq> [] \<longrightarrow>
      state (update_continuation_point subject_type pkg s)
        (''continuation_point_'' @ subject_type) = Some D2)
   \<and> (lastPermanentStorageDate pkg = None \<and> permanentStorageHwmDate pkg = None \<longrightarrow>
      update_continuation_point subject_type pkg s = s)"
  by (simp add: update_continuation_point_def Let_def)

theorem update_continuation_point_rule_witness:
  "state (update_continuation_point ''Subject1''
       \<lparr>parts = None, isTruncated = Some True,
        lastPermanentStorageDate = Some ''2024-06-10T00:00:00Z'',
        permanentStorageHwmDate = Some ''2024-06-15T00:00:00Z''\<rparr> demo_fetcher)
     ''continuation_point_Subject1'' = Some ''2024-06-10T00:00:00Z''
   \<and> state (update_continuation_point ''Subject1'' demo_package demo_fetcher)
     ''continuation_point_Subject1'' = Some ''2024-06-15T00:00:00Z''
   \<and> update_continuation_point ''Subject1''
       \<lparr>parts = None, isTruncated = Some True, lastPermanentStorageDate = None,
        permanentStorageHwmDate = None\<rparr> demo_fetcher = demo_fetcher"
  using update_continuation_point_rule [of
      "\<lparr>parts = None, isTruncated = Some True,
        lastPermanentStorageDate = Some ''2024-06-10T00:00:00Z'',
        permanentStorageHwmDate = Some ''2024-06-15T00:00:00Z''\<rparr>"
      "''2024-06-10T00:00:00Z''" "''2024-06-15T00:00:00Z''" "''Subject1''" demo_fetcher]
    update_continuation_point_rule [of demo_package "[]" "''2024-06-15T00:00:00Z''"
      "''Subject1''" demo_fetcher]
    update_continuation_point_rule [of
      "\<lparr>parts = None, isTruncated = Some True, lastPermanentStorageDate = None,
        permanentStorageHwmDate = None\<rparr>" "[]" "[]" "''Subject1''" demo_fetcher]
  by (simp add: demo_package_def)

text \<open>
  C9. A truncated package without \<^verbatim>\<open>lastPermanentStorageDate\<close> leaves the fetcher, and
  so the cursor, as it was, whatever its high-water-mark date.
\<close>

theorem truncated_without_last_date:
  "update_continuation_point subject_type
     (pkg\<lparr>isTruncated := Some True, lastPermanentStorageDate := None,
          permanentStorageHwmDate := hwm\<rparr>) s = s"
  by (simp add: update_continuation_point_def Let_def)

section \<open>The polling loops\<close>

lemma polls_Suc: "polls call delay (Suc N) = call # Sleep delay # polls call delay N"
  by (simp add: polls_def)

lemma count_polls: "call \<noteq> Sleep delay \<Longrightarrow> count_list (polls call delay N) call = N"
  by (induction N) (simp_all add: polls_def)

text \<open>\<open>N\<close> pending replies take the loop through \<open>N\<close> attempts, each followed by a sleep.\<close>

lemma auth_poll_pending:
  "\<forall>i<N. pending (auth_status_reply w r a (k + i)) \<Longrightarrow> N \<le> n \<Longrightarrow>
   auth_poll w r a n k s =
   auth_poll w r a (n - N) (k + N) (s\<lparr>trace := trace s @ polls (AuthStatusCall r) 2 N\<rparr>)"
proof (induction N arbitrary: n k s)
  case 0
  then show ?case by (simp add: polls_def)
next
  case (Suc N)
  from Suc.prems obtain m where n: "n = Suc m" and m: "N \<le> m" by (cases n) auto
  from Suc.prems have first: "pending (auth_status_reply w r a k)" by force
  from Suc.prems have rest: "\<forall>i<N. pending (auth_status_reply w r a (Suc k + i))" by force
  show ?case using first Suc.IH [OF rest m]
    by (auto simp: n pending_def log_def polls_Suc split: sum.splits option.splits)
qed

lemma export_poll_pending:
  "\<not> no_token s \<Longrightarrow> \<forall>i<N. pending (export_status_reply w r (k + i)) \<Longrightarrow> N \<le> n \<Longrightarrow>
   export_poll w r n k s =
   export_poll w r (n - N) (k + N) (s\<lparr>trace := trace s @ polls (ExportStatusCall r) 5 N\<rparr>)"
proof (induction N arbitrary: n k s)
  case 0
  then show ?case by (simp add: polls_def)
next
  case (Suc N)
  from Suc.prems obtain m where n: "n = Suc m" and m: "N \<le> m" by (cases n) auto
  from Suc.prems have first: "pending (export_status_reply w r k)" by force
  from Suc.prems have rest: "\<forall>i<N. pending (export_status_reply w r (Suc k + i))" by force
  have token: "\<not> no_token (log (Sleep 5) (log (ExportStatusCall r) s))"
    using Suc.prems(1) by (simp add: no_token_def log_def)
  show ?case using first Suc.IH [OF token rest m] Suc.prems(1)
    by (auto simp: n pending_def log_def polls_Suc get_export_status_def no_token_def
             split: sum.splits option.splits)
qed

lemma auth_poll_success:
  assumes "N < n" and "\<forall>i<N. pending (auth_status_reply w r a i)"
    and "auth_status_reply w r a N = Inr d" and "status_code d = Some 200"
  shows "wait_for_auth_completion w r a n s =
         (Inr (), s\<lparr>trace := trace s @ polls (AuthStatusCall r) 2 N @ [AuthStatusCall r]\<rparr>)"
proof -
  from assms(1) obtain m where m: "n - N = Suc m" by (cases "n - N") auto
  have "auth_poll w r a n 0 s =
        auth_poll w r a (n - N) (0 + N) (s\<lparr>trace := trace s @ polls (AuthStatusCall r) 2 N\<rparr>)"
    using assms(1,2) by (intro auth_poll_pending) auto
  then show ?thesis using assms(3,4)
    by (simp add: wait_for_auth_completion_def m log_def)
qed

lemma auth_poll_timeout:
  assumes "\<forall>i<n. pending (auth_status_reply w r a i)"
  shows "fst (wait_for_auth_completion w r a n s) = Inl AuthTimeout"
proof -
  have "auth_poll w r a n 0 s =
        auth_poll w r a (n - n) (0 + n) (s\<lparr>trace := trace s @ polls (AuthStatusCall r) 2 n\<rparr>)"
    using assms by (intro auth_poll_pending) auto
  then show ?thesis by (simp add: wait_for_auth_completion_def)
qed

lemma auth_poll_failure:
  assumes "N < n" and "\<forall>i<N. pending (auth_status_reply w r a i)"
    and "auth_status_reply w r a N = Inr d" and "status_code d = Some c" and "400 \<le> c"
    and "description d = Some msg"
  shows "fst (wait_for_auth_completion w r a n s) = Inl (AuthFailed msg)"
proof -
  from assms(1) obtain m where m: "n - N = Suc m" by (cases "n - N") auto
  have "auth_poll w r a n 0 s =
        auth_poll w r a (n - N) (0 + N) (s\<lparr>trace := trace s @ polls (AuthStatusCall r) 2 N\<rparr>)"
    using assms(1,2) by (intro auth_poll_pending) auto
  then show ?thesis using assms(3-)
    by (simp add: wait_for_auth_completion_def m log_def)
qed

lemma export_poll_success:
  assumes "\<not> no_token s" and "N < n" and "\<forall>i<N. pending (export_status_reply w r i)"
    and "export_status_reply w r N = Inr d" and "status_code d = Some 200"
  shows "wait_for_export_completion w r n s =
         (Inr d, s\<lparr>trace := trace s @ polls (ExportStatusCall r) 5 N @ [ExportStatusCall r]\<rparr>)"
proof -
  from assms(2) obtain m where m: "n - N = Suc m" by (cases "n - N") auto
  have "export_poll w r n 0 s =
        export_poll w r (n - N) (0 + N) (s\<lparr>trace := trace s @ polls (ExportStatusCall r) 5 N\<rparr>)"
    using assms(1,2,3) by (intro export_poll_pending) auto
  then show ?thesis using assms(1,4,5)
    by (simp add: wait_for_export_completion_def m log_def get_export_status_def no_token_def)
qed

lemma export_poll_timeout:
  assumes "\<not> no_token s" and "\<forall>i<n. pending (export_status_reply w r i)"
  shows "fst (wait_for_export_completion w r n s) = Inl ExportTimeout"
proof -
  have "export_poll w r n 0 s =
        export_poll w r (n - n) (0 + n) (s\<lparr>trace := trace s @ polls (ExportStatusCall r) 5 n\<rparr>)"
    using assms by (intro export_poll_pending) auto
  then show ?thesis by (simp add: wait_for_export_completion_def)
qed

lemma export_poll_failure:
  assumes "\<not> no_token s" and "N < n" and "\<forall>i<N. pending (export_status_reply w r i)"
    and "export_status_reply w r N = Inr d" and "status_code d = Some c" and "400 \<le> c"
    and "description d = Some msg"
  shows "fst (wait_for_export_completion w r n s) = Inl (ExportFailed msg)"
proof -
  from assms(2) obtain m where m: "n - N = Suc m" by (cases "n - N") auto
  have "export_poll w r n 0 s =
        export_poll w r (n - N) (0 + N) (s\<lparr>trace := trace s @ polls (ExportStatusCall r) 5 N\<rparr>)"
    using assms(1,2,3) by (intro export_poll_pending) auto
  then show ?thesis using assms(1,4-)
    by (simp add: wait_for_export_completion_def m log_def get_export_status_def no_token_def)
qed

text \<open>
  C5. Authentication polls at most 10 times and sleeps 2 seconds, the export polls at most
  60 times and sleeps 5 seconds; the export needs an access token for its status calls.
  For each loop: after \<open>N\<close> pending replies (\<open>N\<close> below the ceiling) and a reply with code
  200 the loop returns success, its events are \<open>N\<close> status calls each followed by a sleep
  and then one last status call, \<open>N + 1\<close> calls in all; when every reply up to the ceiling
  is pending, the loop raises its timeout; and after \<open>N\<close> pending replies a code of at
  least 400 raises the failure that carries the description of the reply.
\<close>

theorem poll_termination:
  "(N < 10 \<and> (\<forall>i<N. pending (auth_status_reply w r a i)) \<and>
      auth_status_reply w r a N = Inr d \<and> status_code d = Some 200 \<longrightarrow>
      wait_for_auth_completion w r a 10 s =
        (Inr (), s\<lparr>trace := trace s @ polls (AuthStatusCall r) 2 N @ [AuthStatusCall r]\<rparr>) \<and>
      count_list (polls (AuthStatusCall r) 2 N @ [AuthStatusCall r]) (AuthStatusCall r) = N + 1)
   \<and> ((\<forall>i<10. pending (auth_status_reply w r a i)) \<longrightarrow>
      fst (wait_for_auth_completion w r a 10 s) = Inl AuthTimeout)
   \<and> (N < 10 \<and> (\<forall>i<N. pending (auth_status_reply w r a i)) \<and>
      auth_status_reply w r a N = Inr d \<and> status_code d = Some c \<and> 400 \<le> c \<and>
      description d = Some msg \<longrightarrow>
      fst (wait_for_auth_completion w r a 10 s) = Inl (AuthFailed msg))
   \<and> (\<not> no_token s \<and> N < 60 \<and> (\<forall>i<N. pending (export_status_reply w r i)) \<and>
      export_status_reply w r N = Inr d \<and> status_code d = Some 200 \<longrightarrow>
      wait_for_export_completion w r 60 s =
        (Inr d, s\<lparr>trace := trace s @ polls (ExportStatusCall r) 5 N @ [ExportStatusCall r]\<rparr>) \<and>
      count_list (polls (ExportStatusCall r) 5 N @ [ExportStatusCall r]) (ExportStatusCall r)
        = N + 1)
   \<and> (\<not> no_token s \<and> (\<forall>i<60. pending (export_status_reply w r i)) \<longrightarrow>
      fst (wait_for_export_completion w r 60 s) = Inl ExportTimeout)
   \<and> (\<not> no_token s \<and> N < 60 \<and> (\<forall>i<N. pending (export_status_reply w r i)) \<and>
      export_status_reply w r N = Inr d \<and> status_code d = Some c \<and> 400 \<le> c \<and>
      description d = Some msg \<longrightarrow>
      fst (wait_for_export_completion w r 60 s) = Inl (ExportFailed msg))"
proof (intro conjI impI; (elim conjE)?)
  show "fst (wait_for_auth_completion w r a 10 s) = Inl (AuthFailed msg)"
    if "N < 10" "\<forall>i<N. pending (auth_status_reply w r a i)"
      "auth_status_reply w r a N = Inr d" "status_code d = Some c" "400 \<le> c"
      "description d = Some msg"
    using that by (rule auth_poll_failure)
  show "fst (wait_for_export_completion w r 60 s) = Inl (ExportFailed msg)"
    if "\<not> no_token s" "N < 60" "\<forall>i<N. pending (export_status_reply w r i)"
      "export_status_reply w r N = Inr d" "status_code d = Some c" "400 \<le> c"
      "description d = Some msg"
    using that by (rule export_poll_failure)
qed (simp_all add: auth_poll_success auth_poll_timeout export_poll_success
       export_poll_timeout count_polls)

lemma demo_pending:
  "pending (demo_replies ''slow'' i)" "pending (demo_replies ''bad'' 0)"
  "pending (demo_replies ''Subject1'' 0)" "pending (demo_replies ''Subject1'' (Suc 0))"
  by (simp_all add: demo_replies_def demo_status_def pending_def)

lemma all_less_2: "(\<forall>i<Suc (Suc 0). P i) = (P 0 \<and> P (Suc 0))"
  by (auto simp: less_Suc_eq)

lemma all_less_1: "(\<forall>i<Suc 0. P i) = P 0"
  by auto

theorem poll_termination_witness:
  "wait_for_auth_completion demo_world ''Subject1'' ''auth-token'' 10 demo_fetcher =
     (Inr (), demo_fetcher\<lparr>trace :=
        [AuthStatusCall ''Subject1'', Sleep 2, AuthStatusCall ''Subject1'', Sleep 2,
         AuthStatusCall ''Subject1'']\<rparr>)
   \<and> fst (wait_for_auth_completion demo_world ''slow'' ''auth-token'' 10 demo_fetcher) =
     Inl AuthTimeout
   \<and> fst (wait_for_auth_completion demo_world ''bad'' ''auth-token'' 10 demo_fetcher) =
     Inl (AuthFailed ''denied'')
   \<and> wait_for_export_completion demo_world ''Subject1'' 60 demo_fetcher =
     (Inr (demo_status 200 None (Some demo_package)), demo_fetcher\<lparr>trace :=
        [ExportStatusCall ''Subject1'', Sleep 5, ExportStatusCall ''Subject1'', Sleep 5,
         ExportStatusCall ''Subject1'']\<rparr>)
   \<and> fst (wait_for_export_completion demo_world ''slow'' 60 demo_fetcher) = Inl ExportTimeout
   \<and> fst (wait_for_export_completion demo_world ''bad'' 60 demo_fetcher) =
     Inl (ExportFailed ''denied'')"
proof -
  have token: "\<not> no_token demo_fetcher"
    by (simp add: no_token_def demo_fetcher_def init_fetcher_def)
  have empty: "trace demo_fetcher = []"
    by (simp add: demo_fetcher_def init_fetcher_def)
  have replies: "auth_status_reply demo_world r a = demo_replies r"
    "export_status_reply demo_world = demo_replies" for r a
    by (simp_all add: demo_world_def)
  have complete:
    "demo_replies ''Subject1'' (Suc (Suc 0)) = Inr (demo_status 200 None (Some demo_package))"
    "status_code (demo_status 200 None (Some demo_package)) = Some 200"
    by (simp_all add: demo_replies_def demo_status_def)
  have rejected: "demo_replies ''bad'' (Suc 0) = Inr (demo_status 403 (Some ''denied'') None)"
    "status_code (demo_status 403 (Some ''denied'') None) = Some 403"
    "description (demo_status 403 (Some ''denied'') None) = Some ''denied''"
    by (simp_all add: demo_replies_def demo_status_def)
  have two: "polls call delay (Suc (Suc 0)) = [call, Sleep delay, call, Sleep delay]"
    for call delay by (simp add: polls_def)
  note good = poll_termination [of "Suc (Suc 0)" demo_world "''Subject1''" "''auth-token''"
      "demo_status 200 None (Some demo_package)" demo_fetcher 403 "''denied''"]
  note slow = poll_termination [of 0 demo_world "''slow''" "''auth-token''"
      "demo_status 200 None (Some demo_package)" demo_fetcher 403 "''denied''"]
  note bad = poll_termination [of "Suc 0" demo_world "''bad''" "''auth-token''"
      "demo_status 403 (Some ''denied'') None" demo_fetcher 403 "''denied''"]
  have a1: "wait_for_auth_completion demo_world ''Subject1'' ''auth-token'' 10 demo_fetcher =
     (Inr (), demo_fetcher\<lparr>trace :=
        [AuthStatusCall ''Subject1'', Sleep 2, AuthStatusCall ''Subject1'', Sleep 2,
         AuthStatusCall ''Subject1'']\<rparr>)"
    using good by (simp add: empty replies complete demo_pending all_less_2 two)
  have a2: "fst (wait_for_auth_completion demo_world ''slow'' ''auth-token'' 10 demo_fetcher) =
     Inl AuthTimeout"
    using slow by (simp add: replies demo_pending)
  have a3: "fst (wait_for_auth_completion demo_world ''bad'' ''auth-token'' 10 demo_fetcher) =
     Inl (AuthFailed ''denied'')"
    using bad by (simp add: replies rejected demo_pending all_less_1)
  have e1: "wait_for_export_completion demo_world ''Subject1'' 60 demo_fetcher =
     (Inr (demo_status 200 None (Some demo_package)), demo_fetcher\<lparr>trace :=
        [ExportStatusCall ''Subject1'', Sleep 5, ExportStatusCall ''Subject1'', Sleep 5,
         ExportStatusCall ''Subject1'']\<rparr>)"
    using good by (simp add: token empty replies complete demo_pending all_less_2 two)
  have e2: "fst (wait_for_export_completion demo_world ''slow'' 60 demo_fetcher) =
     Inl ExportTimeout"
    using slow by (simp add: token replies demo_pending)
  have e3: "fst (wait_for_export_completion demo_world ''bad'' 60 demo_fetcher) =
     Inl (ExportFailed ''denied'')"
    using bad by (simp add: token replies rejected demo_pending all_less_1)
  show ?thesis using a1 a2 a3 e1 e2 e3 by simp
qed

section \<open>What each step changes\<close>

text \<open>The polling loops and the download of the parts change nothing but the trace.\<close>

lemma auth_poll_frame:
  "auth_poll w r a n k s = (res, s') \<Longrightarrow>
   \<exists>t. s' = s\<lparr>trace := trace s @ t\<rparr> \<and> (\<forall>e\<in>set t. \<not> is_transfer e)"
proof (induction n arbitrary: k s)
  case 0
  then show ?case by (auto intro!: exI [of _ "[]"])
next
  case (Suc n)
  let ?s1 = "log (AuthStatusCall r) s"
  consider (stop) "s' = ?s1"
    | (continue) "auth_poll w r a n (Suc k) (log (Sleep 2) ?s1) = (res, s')"
    using Suc.prems by (auto simp: Let_def split: sum.splits option.splits if_splits)
  then show ?case
  proof cases
    case stop
    then show ?thesis by (auto simp: log_def intro!: exI [of _ "[AuthStatusCall r]"])
  next
    case continue
    from Suc.IH [OF this] obtain t
      where "s' = (log (Sleep 2) ?s1)\<lparr>trace := trace (log (Sleep 2) ?s1) @ t\<rparr>"
        and "\<forall>e\<in>set t. \<not> is_transfer e" by blast
    then show ?thesis
      by (auto simp: log_def intro!: exI [of _ "AuthStatusCall r # Sleep 2 # t"])
  qed
qed

lemma export_poll_frame:
  "export_poll w r n k s = (res, s') \<Longrightarrow>
   \<exists>t. s' = s\<lparr>trace := trace s @ t\<rparr> \<and> (\<forall>e\<in>set t. \<not> is_transfer e)"
proof (induction n arbitrary: k s)
  case 0
  then show ?case by (auto intro!: exI [of _ "[]"])
next
  case (Suc n)
  let ?s1 = "log (ExportStatusCall r) s"
  consider (stop) "s' = ?s1"
    | (continue) "export_poll w r n (Suc k) (log (Sleep 5) ?s1) = (res, s')"
    using Suc.prems by (auto simp: Let_def split: sum.splits option.splits if_splits)
  then show ?case
  proof cases
    case stop
    then show ?thesis by (auto simp: log_def intro!: exI [of _ "[ExportStatusCall r]"])
  next
    case continue
    from Suc.IH [OF this] obtain t
      where "s' = (log (Sleep 5) ?s1)\<lparr>trace := trace (log (Sleep 5) ?s1) @ t\<rparr>"
        and "\<forall>e\<in>set t. \<not> is_transfer e" by blast
    then show ?thesis
      by (auto simp: log_def intro!: exI [of _ "ExportStatusCall r # Sleep 5 # t"])
  qed
qed

lemma export_poll_completed:
  "export_poll w r n k s = (Inr status, s') \<Longrightarrow> status_code status = Some 200"
  by (induction n arbitrary: k s)
     (auto simp: Let_def get_export_status_def split: sum.splits option.splits if_splits)

lemma download_parts_frame:
  "download_parts w ps acc s = (res, s') \<Longrightarrow> \<exists>t. s' = s\<lparr>trace := trace s @ t\<rparr>"
proof (induction ps arbitrary: acc s)
  case Nil
  then show ?case by (auto intro!: exI [of _ "[]"])
next
  case (Cons p ps)
  show ?case
  proof (cases p)
    case None
    with Cons.prems show ?thesis by (auto intro!: exI [of _ "[]"])
  next
    case (Some u)
    let ?s1 = "log (Download u) s"
    consider (stop) "s' = ?s1"
      | (continue) d where "download_parts w ps (acc @ d) ?s1 = (res, s')"
      using Cons.prems Some by (auto simp: Let_def split: sum.splits)
    then show ?thesis
    proof cases
      case stop
      then show ?thesis by (auto simp: log_def intro!: exI [of _ "[Download u]"])
    next
      case continue
      from Cons.IH [OF this] obtain t where "s' = ?s1\<lparr>trace := trace ?s1 @ t\<rparr>" by blast
      then show ?thesis by (auto simp: log_def intro!: exI [of _ "Download u # t"])
    qed
  qed
qed


text \<open>
  Saving a document leaves the cursors, the state file and the access token alone, only
  adds to the trace, to the directory and to the downloaded identifiers, and keeps the
  new invoices unique.
\<close>

lemma grows_refl: "grows s s"
  by (simp add: grows_def)

lemma grows_trans: "grows s s1 \<Longrightarrow> grows s1 s2 \<Longrightarrow> grows s s2"
  unfolding grows_def by (elim conjE exE, intro conjI) auto

lemma grows_trace: "grows s (s\<lparr>trace := trace s @ t\<rparr>)"
  by (simp add: grows_def records_unique_def)

lemma save_invoice_cases:
  assumes "save_invoice w zf fname md s = (res, s')"
  obtains (failed) e where "res = Inl e" and "s' = s"
  | (seen) k where "ksef_number_of md fname = Inr k" and "k \<in> downloaded_invoices s"
      and "res = Inr ()" and "s' = s"
  | (on_disk) k where "ksef_number_of md fname = Inr k" and "k \<notin> downloaded_invoices s"
      and "faktury s (resolve w fname) \<noteq> None" and "res = Inr ()"
      and "s' = s\<lparr>downloaded_invoices := insert k (downloaded_invoices s)\<rparr>"
  | (written) k content where "ksef_number_of md fname = Inr k"
      and "k \<notin> downloaded_invoices s" and "faktury s (resolve w fname) = None"
      and "res = Inr ()"
      and "s' = s\<lparr>faktury := (faktury s)(resolve w fname \<mapsto> content),
                  downloaded_invoices := insert k (downloaded_invoices s),
                  new_invoices := new_invoices s @ [\<lparr>ksefNumber = k, filename = fname\<rparr>],
                  trace := trace s @ [WriteFile fname]\<rparr>"
proof (cases "ksef_number_of md fname")
  case (Inl e)
  with assms have "res = Inl e" "s' = s" by (simp_all add: save_invoice_def)
  then show ?thesis by (rule failed)
next
  case (Inr k)
  show ?thesis
  proof (cases "k \<in> downloaded_invoices s")
    case True
    with assms Inr have "res = Inr ()" "s' = s" by (simp_all add: save_invoice_def)
    with Inr True show ?thesis by (intro seen [of k]) simp_all
  next
    case False
    show ?thesis
    proof (cases "faktury s (resolve w fname)")
      case (Some present)
      with assms Inr False
      have "res = Inr ()" "s' = s\<lparr>downloaded_invoices := insert k (downloaded_invoices s)\<rparr>"
        by (simp_all add: save_invoice_def)
      with Inr False Some show ?thesis by (intro on_disk [of k]) simp_all
    next
      case None
      show ?thesis
      proof (cases "zf_open zf fname")
        case (Inl e)
        with assms Inr False None have "res = Inl e" "s' = s"
          by (simp_all add: save_invoice_def)
        then show ?thesis by (rule failed)
      next
        case content: (Inr content)
        show ?thesis
        proof (cases "open_wb w fname")
          case (Some e)
          with assms Inr False None content have "res = Inl e" "s' = s"
            by (simp_all add: save_invoice_def)
          then show ?thesis by (rule failed)
        next
          case writable: None
          with assms Inr False None content
          have "res = Inr ()"
            "s' = s\<lparr>faktury := (faktury s)(resolve w fname \<mapsto> content),
                  downloaded_invoices := insert k (downloaded_invoices s),
                  new_invoices := new_invoices s @ [\<lparr>ksefNumber = k, filename = fname\<rparr>],
                  trace := trace s @ [WriteFile fname]\<rparr>"
            by (simp_all add: save_invoice_def)
          with Inr False None show ?thesis by (intro written [of k content]) simp_all
        qed
      qed
    qed
  qed
qed

lemma save_invoice_grows:
  assumes "save_invoice w zf fname md s = (res, s')"
  shows "grows s s'"
  using assms
proof (cases rule: save_invoice_cases)
  case (failed e)
  then show ?thesis by (simp add: grows_refl)
next
  case (seen k)
  then show ?thesis by (simp add: grows_refl)
next
  case (on_disk k)
  then show ?thesis by (auto simp: grows_def records_unique_def)
next
  case (written k content)
  then show ?thesis by (auto simp: grows_def records_unique_def)
qed

lemma save_invoices_grows: "save_invoices w zf md names s = (res, s') \<Longrightarrow> grows s s'"
proof (induction names arbitrary: s)
  case Nil
  then show ?case by (simp add: grows_refl)
next
  case (Cons fname rest)
  show ?case
  proof (cases "endswith fname ''.xml''")
    case False
    with Cons show ?thesis by simp
  next
    case True
    obtain r1 s1 where step: "save_invoice w zf fname md s = (r1, s1)" by fastforce
    have first: "grows s s1" using step by (rule save_invoice_grows)
    show ?thesis
    proof (cases r1)
      case (Inl e)
      with Cons.prems True step first show ?thesis by simp
    next
      case (Inr u)
      with Cons.prems True step have "save_invoices w zf md rest s1 = (res, s')" by simp
      then have "grows s1 s'" by (rule Cons.IH)
      with first show ?thesis by (rule grows_trans)
    qed
  qed
qed

lemma process_package_grows: "process_package w pkg key iv s = (res, s') \<Longrightarrow> grows s s'"
proof -
  assume run: "process_package w pkg key iv s = (res, s')"
  define ps where "ps = (case parts pkg of None \<Rightarrow> [] | Some ps \<Rightarrow> ps)"
  obtain r1 s1 where dl: "download_parts w ps [] s = (r1, s1)" by fastforce
  from download_parts_frame [OF dl] have g1: "grows s s1" by (auto simp: grows_trace)
  show "grows s s'"
  proof (cases "ps = []")
    case True
    with run show ?thesis by (simp add: process_package_def ps_def grows_refl)
  next
    case False
    from run False dl consider (stop) "s' = s1"
      | (save) zf md where "save_invoices w zf md (namelist zf) s1 = (res, s')"
      by (auto simp: process_package_def ps_def [symmetric] split: sum.splits)
    then show ?thesis
    proof cases
      case stop
      with g1 show ?thesis by simp
    next
      case save
      from g1 save_invoices_grows [OF save] show ?thesis by (rule grows_trans)
    qed
  qed
qed

lemma update_continuation_point_keeps:
  "state_file (update_continuation_point st pkg s) = state_file s"
  "access_token (update_continuation_point st pkg s) = access_token s"
  "trace (update_continuation_point st pkg s) = trace s"
  "faktury (update_continuation_point st pkg s) = faktury s"
  "downloaded_invoices (update_continuation_point st pkg s) = downloaded_invoices s"
  "new_invoices (update_continuation_point st pkg s) = new_invoices s"
  by (simp_all add: update_continuation_point_def Let_def split: option.splits)

text \<open>
  One subject type, and a sequence of them: the state file and the access token stay,
  the trace is extended, the new invoices stay unique.
\<close>

lemma proceeds_refl: "proceeds s s"
  by (simp add: proceeds_def)

lemma proceeds_trans: "proceeds s s1 \<Longrightarrow> proceeds s1 s2 \<Longrightarrow> proceeds s s2"
  unfolding proceeds_def by (elim conjE exE, intro conjI) auto

lemma grows_proceeds: "grows s s' \<Longrightarrow> proceeds s s'"
  by (simp add: grows_def proceeds_def)

lemma proceeds_update:
  "proceeds s s' \<Longrightarrow> proceeds s (update_continuation_point st pkg s')"
  by (simp add: proceeds_def update_continuation_point_keeps records_unique_def)

lemma fetch_for_subject_type_after_call:
  assumes run: "fetch_for_subject_type w st s = (res, s')"
  shows "proceeds (log (ExportCall st (start_date w st s)) s) s'"
proof -
  let ?s1 = "log (ExportCall st (start_date w st s)) s"
  from run consider (stop) "s' = ?s1"
    | (poll) r rp where "export_poll w r 60 0 ?s1 = (rp, s')"
    | (package) r status s2 pkg key iv rq s3
      where "export_poll w r 60 0 ?s1 = (Inr status, s2)"
        and "process_package w pkg key iv s2 = (rq, s3)"
        and "s' = s3 \<or> s' = update_continuation_point st pkg s3"
    by (auto simp: fetch_for_subject_type_def Let_def wait_for_export_completion_def
             split: sum.splits option.splits prod.splits)
  then show ?thesis
  proof cases
    case stop
    then show ?thesis by (simp add: proceeds_refl)
  next
    case poll
    from export_poll_frame [OF poll] have "grows ?s1 s'" by (auto simp: grows_trace)
    then show ?thesis by (rule grows_proceeds)
  next
    case package
    from export_poll_frame [OF package(1)] have "grows ?s1 s2" by (auto simp: grows_trace)
    from this process_package_grows [OF package(2)] have "grows ?s1 s3" by (rule grows_trans)
    then have "proceeds ?s1 s3" by (rule grows_proceeds)
    with package(3) show ?thesis by (auto simp: proceeds_update)
  qed
qed

lemma fetch_for_subject_type_proceeds:
  assumes run: "fetch_for_subject_type w st s = (res, s')"
  shows "proceeds s s'"
proof -
  have "grows s (log (ExportCall st (start_date w st s)) s)"
    by (simp add: log_def grows_trace)
  then have "proceeds s (log (ExportCall st (start_date w st s)) s)" by (rule grows_proceeds)
  from this fetch_for_subject_type_after_call [OF run] show ?thesis by (rule proceeds_trans)
qed

lemma fetch_subject_types_proceeds:
  "fetch_subject_types w sts s = (res, s') \<Longrightarrow> proceeds s s'"
proof (induction sts arbitrary: s)
  case Nil
  then show ?case by (simp add: proceeds_refl)
next
  case (Cons st rest)
  obtain r1 s1 where step: "fetch_for_subject_type w st s = (r1, s1)" by fastforce
  have first: "proceeds s s1" using step by (rule fetch_for_subject_type_proceeds)
  show ?case
  proof (cases r1)
    case (Inl e)
    with Cons.prems step first show ?thesis by simp
  next
    case (Inr u)
    with Cons.prems step have "fetch_subject_types w rest s1 = (res, s')" by simp
    then have "proceeds s1 s'" by (rule Cons.IH)
    with first show ?thesis by (rule proceeds_trans)
  qed
qed

text \<open>Authentication changes the trace and the access token only.\<close>

lemma redeem_token_frame:
  "redeem_token w a s = (res, s') \<Longrightarrow>
   s' = s\<lparr>access_token := access_token s', trace := trace s @ [RedeemCall]\<rparr>"
  by (auto simp: redeem_token_def log_def Let_def split: sum.splits option.splits)

lemma authenticate_frame:
  assumes run: "authenticate w s = (res, s')"
  shows "\<exists>t a. s' = s\<lparr>access_token := a, trace := t\<rparr>"
proof -
  let ?s2 = "log SubmitAuthCall (log ChallengeCall s)"
  from run consider (early) "s' = log ChallengeCall s \<or> s' = ?s2"
    | (poll) r a rp where "auth_poll w r a 10 0 ?s2 = (rp, s')"
    | (redeem) r a s3 rr where "auth_poll w r a 10 0 ?s2 = (Inr (), s3)"
        and "redeem_token w a s3 = (rr, s')"
    by (auto simp: authenticate_def Let_def wait_for_auth_completion_def
             split: sum.splits option.splits prod.splits)
  then show ?thesis
  proof cases
    case early
    then have "s' = s\<lparr>access_token := access_token s, trace := trace s @ [ChallengeCall]\<rparr>
      \<or> s' = s\<lparr>access_token := access_token s,
                 trace := trace s @ [ChallengeCall, SubmitAuthCall]\<rparr>"
      by (auto simp: log_def)
    then show ?thesis by blast
  next
    case poll
    from auth_poll_frame [OF poll] obtain t where "s' = ?s2\<lparr>trace := trace ?s2 @ t\<rparr>" by blast
    then have "s' = s\<lparr>access_token := access_token s,
        trace := trace s @ [ChallengeCall, SubmitAuthCall] @ t\<rparr>"
      by (simp add: log_def)
    then show ?thesis by blast
  next
    case redeem
    from auth_poll_frame [OF redeem(1)] obtain t where "s3 = ?s2\<lparr>trace := trace ?s2 @ t\<rparr>"
      by blast
    then have s3: "s3 = s\<lparr>access_token := access_token s,
        trace := trace s @ [ChallengeCall, SubmitAuthCall] @ t\<rparr>"
      by (simp add: log_def)
    from redeem(2)
    have "s' = s3\<lparr>access_token := access_token s', trace := trace s3 @ [RedeemCall]\<rparr>"
      by (rule redeem_token_frame)
    with s3 have "s' = s\<lparr>access_token := access_token s',
        trace := trace s @ [ChallengeCall, SubmitAuthCall] @ t @ [RedeemCall]\<rparr>"
      by simp
    then show ?thesis by blast
  qed
qed

section \<open>The start of an export\<close>

lemma zpad_low: "zpad 2 0 = ''00''" "zpad 2 (Suc 0) = ''01''"
  by (simp_all add: numeral_2_eq_2)

text \<open>
  C6. For a subject type without a stored cursor, the start date is the ISO form of the
  clock reading with day 1 and time 00:00:00.000000, that is the year and the month of
  the clock followed by \<^verbatim>\<open>-01T00:00:00+00:00\<close>, and the export request that the fetcher
  issues next carries that date.
\<close>

theorem default_start_date:
  "state s (''continuation_point_'' @ subject_type) = None \<longrightarrow>
     start_date w subject_type s =
       isoformat ((clock w subject_type)
         \<lparr>day := 1, hour := 0, minute := 0, second := 0, microsecond := 0\<rparr>) \<and>
     start_date w subject_type s =
       zpad 4 (year (clock w subject_type)) @ ''-'' @ zpad 2 (month (clock w subject_type)) @
       ''-01T00:00:00+00:00'' \<and>
     (\<exists>t. trace (snd (fetch_for_subject_type w subject_type s)) =
        trace s @ ExportCall subject_type (start_date w subject_type s) # t)"
proof
  assume absent: "state s (''continuation_point_'' @ subject_type) = None"
  have iso: "start_date w subject_type s =
       isoformat ((clock w subject_type)
         \<lparr>day := 1, hour := 0, minute := 0, second := 0, microsecond := 0\<rparr>)"
    using absent by (simp add: start_date_def)
  have printed: "isoformat ((clock w subject_type)
         \<lparr>day := 1, hour := 0, minute := 0, second := 0, microsecond := 0\<rparr>) =
       zpad 4 (year (clock w subject_type)) @ ''-'' @ zpad 2 (month (clock w subject_type)) @
       ''-01T00:00:00+00:00''"
    by (simp add: isoformat_def zpad_low)
  obtain res s' where run: "fetch_for_subject_type w subject_type s = (res, s')" by fastforce
  from fetch_for_subject_type_after_call [OF run]
  obtain t where "trace s' = trace s @ ExportCall subject_type (start_date w subject_type s) # t"
    by (auto simp: proceeds_def log_def)
  with run have "\<exists>t. trace (snd (fetch_for_subject_type w subject_type s)) =
        trace s @ ExportCall subject_type (start_date w subject_type s) # t"
    by simp
  with iso printed show "start_date w subject_type s =
       isoformat ((clock w subject_type)
         \<lparr>day := 1, hour := 0, minute := 0, second := 0, microsecond := 0\<rparr>) \<and>
     start_date w subject_type s =
       zpad 4 (year (clock w subject_type)) @ ''-'' @ zpad 2 (month (clock w subject_type)) @
       ''-01T00:00:00+00:00'' \<and>
     (\<exists>t. trace (snd (fetch_for_subject_type w subject_type s)) =
        trace s @ ExportCall subject_type (start_date w subject_type s) # t)"
    by simp
qed

theorem default_start_date_witness:
  "state demo_fetcher (''continuation_point_'' @ ''Subject1'') = None
   \<and> start_date demo_world ''Subject1'' demo_fetcher = ''2024-06-01T00:00:00+00:00''
   \<and> (\<exists>t. trace (snd (fetch_for_subject_type demo_world ''Subject1'' demo_fetcher)) =
        trace demo_fetcher @ [ExportCall ''Subject1'' ''2024-06-01T00:00:00+00:00''] @ t)"
proof -
  have absent: "state demo_fetcher (''continuation_point_'' @ ''Subject1'') = None"
    by (simp add: demo_fetcher_def init_fetcher_def load_state_def)
  have now: "year (clock demo_world ''Subject1'') = 2024" "month (clock demo_world ''Subject1'') = 6"
    by (simp_all add: demo_world_def)
  have digits: "zpad 4 2024 = ''2024''" "zpad 2 6 = ''06''"
    by code_simp+
  note default_start_date [of demo_fetcher "''Subject1''" demo_world]
  with absent have printed: "start_date demo_world ''Subject1'' demo_fetcher =
       zpad 4 (year (clock demo_world ''Subject1'')) @ ''-'' @
       zpad 2 (month (clock demo_world ''Subject1'')) @ ''-01T00:00:00+00:00''"
    and request: "\<exists>t. trace (snd (fetch_for_subject_type demo_world ''Subject1'' demo_fetcher)) =
        trace demo_fetcher @
        ExportCall ''Subject1'' (start_date demo_world ''Subject1'' demo_fetcher) # t"
    by blast+
  from printed have date:
    "start_date demo_world ''Subject1'' demo_fetcher = ''2024-06-01T00:00:00+00:00''"
    by (simp add: now digits)
  from request absent date show ?thesis by simp
qed

section \<open>An export without a package\<close>

text \<open>
  C8. When the fetcher holds an access token, the export request is accepted and the poll
  returns a status (its code is then 200) without a package, processing the subject type
  succeeds in the fetcher that the poll left: cursors, directory, downloaded identifiers
  and new invoices are those from before, and the events added to the trace contain
  neither the download of a part nor the writing of a document.
\<close>

theorem no_package_no_effect:
  assumes token: "\<not> no_token s"
    and export: "export_reply w subject_type (start_date w subject_type s) = Inr er"
    and reference: "referenceNumber er = Some reference_number"
    and poll: "wait_for_export_completion w reference_number 60
                 (log (ExportCall subject_type (start_date w subject_type s)) s) = (Inr status, s2)"
    and absent: "package status = None"
  shows "fetch_for_subject_type w subject_type s = (Inr (), s2) \<and>
         status_code status = Some 200 \<and>
         state s2 = state s \<and> faktury s2 = faktury s \<and>
         downloaded_invoices s2 = downloaded_invoices s \<and> new_invoices s2 = new_invoices s \<and>
         (\<exists>t. trace s2 = trace s @ t \<and> (\<forall>e\<in>set t. \<not> is_transfer e))"
proof -
  let ?s1 = "log (ExportCall subject_type (start_date w subject_type s)) s"
  have "\<not> no_token ?s1" using token by (simp add: no_token_def log_def)
  then have "export_invoices w subject_type (start_date w subject_type s) ?s1 = Inr er"
    using export by (simp add: export_invoices_def)
  then have run: "fetch_for_subject_type w subject_type s = (Inr (), s2)"
    using reference poll absent by (simp add: fetch_for_subject_type_def Let_def)
  from poll have loop: "export_poll w reference_number 60 0 ?s1 = (Inr status, s2)"
    by (simp add: wait_for_export_completion_def)
  from export_poll_frame [OF loop] obtain t
    where s2: "s2 = ?s1\<lparr>trace := trace ?s1 @ t\<rparr>" and quiet: "\<forall>e\<in>set t. \<not> is_transfer e"
    by blast
  have events: "trace s2 = trace s @ (ExportCall subject_type (start_date w subject_type s) # t)"
    by (subst s2) (simp add: log_def)
  have quiet': "\<forall>e\<in>set (ExportCall subject_type (start_date w subject_type s) # t).
      \<not> is_transfer e"
    using quiet by simp
  have fields: "state s2 = state s" "faktury s2 = faktury s"
    "downloaded_invoices s2 = downloaded_invoices s" "new_invoices s2 = new_invoices s"
    by (subst s2, simp add: log_def)+
  from run export_poll_completed [OF loop] fields events quiet' show ?thesis by blast
qed

theorem no_package_no_effect_witness:
  "\<not> no_token demo_fetcher
   \<and> fetch_for_subject_type demo_world ''Subject3'' demo_fetcher =
       (Inr (), demo_fetcher\<lparr>trace :=
          [ExportCall ''Subject3'' ''2024-06-01T00:00:00+00:00'', ExportStatusCall ''Subject3'']\<rparr>)"
proof -
  let ?s2 = "demo_fetcher\<lparr>trace :=
          [ExportCall ''Subject3'' ''2024-06-01T00:00:00+00:00'', ExportStatusCall ''Subject3'']\<rparr>"
  let ?er = "\<lparr>referenceNumber = Some ''Subject3'', encryption_key = replicate 32 7,
              encryption_iv = replicate 16 9\<rparr>"
  have token: "\<not> no_token demo_fetcher"
    by (simp add: no_token_def demo_fetcher_def init_fetcher_def)
  have date: "start_date demo_world ''Subject3'' demo_fetcher = ''2024-06-01T00:00:00+00:00''"
    by code_simp
  have export: "export_reply demo_world ''Subject3''
      (start_date demo_world ''Subject3'' demo_fetcher) = Inr ?er"
    by (simp add: demo_world_def)
  have reference: "referenceNumber ?er = Some ''Subject3''" by simp
  have poll: "wait_for_export_completion demo_world ''Subject3'' 60
      (log (ExportCall ''Subject3'' (start_date demo_world ''Subject3'' demo_fetcher))
         demo_fetcher) = (Inr (demo_status 200 None None), ?s2)"
  proof -
    let ?s1 = "log (ExportCall ''Subject3'' ''2024-06-01T00:00:00+00:00'') demo_fetcher"
    have "\<not> no_token ?s1" using token by (simp add: no_token_def log_def)
    moreover have "export_status_reply demo_world ''Subject3'' 0 =
        Inr (demo_status 200 None None)"
      by (simp add: demo_world_def demo_replies_def)
    moreover have "status_code (demo_status 200 None None) = Some 200"
      by (simp add: demo_status_def)
    ultimately have "wait_for_export_completion demo_world ''Subject3'' 60 ?s1 =
        (Inr (demo_status 200 None None),
         ?s1\<lparr>trace := trace ?s1 @ polls (ExportStatusCall ''Subject3'') 5 0 @
            [ExportStatusCall ''Subject3'']\<rparr>)"
      by (intro export_poll_success) simp_all
    moreover have "trace demo_fetcher = []"
      by (simp add: demo_fetcher_def init_fetcher_def)
    ultimately show ?thesis
      by (simp add: date log_def polls_def)
  qed
  have absent: "package (demo_status 200 None None) = None" by (simp add: demo_status_def)
  from no_package_no_effect [OF token export reference poll absent] token
  show ?thesis by simp
qed

section \<open>Unique new invoices\<close>

lemma save_state_unique: "records_unique (save_state s) = records_unique s"
  by (simp add: save_state_def log_def records_unique_def)

lemma fetch_invoices_unique:
  assumes unique: "records_unique s" and run: "fetch_invoices w s = (res, s')"
  shows "records_unique s'"
proof -
  obtain r1 s1 where auth: "authenticate w s = (r1, s1)" by fastforce
  from authenticate_frame [OF auth] obtain t a
    where "s1 = s\<lparr>access_token := a, trace := t\<rparr>" by blast
  then have "new_invoices s1 = new_invoices s" "downloaded_invoices s1 = downloaded_invoices s"
    by simp_all
  with unique have u1: "records_unique s1" by (simp add: records_unique_def)
  obtain r2 s2 where roles: "fetch_subject_types w SUBJECT_TYPES s1 = (r2, s2)" by fastforce
  from fetch_subject_types_proceeds [OF roles] u1 have u2: "records_unique s2"
    by (simp add: proceeds_def)
  from run auth roles have "s' = s1 \<or> s' = s2 \<or> s' = save_state s2"
    by (auto simp: fetch_invoices_def Let_def split: sum.splits)
  with u1 u2 show ?thesis by (auto simp: save_state_unique)
qed

text \<open>
  C10. The list of new invoices never holds two records with the same identifier, and
  every identifier in it is in the set of downloaded identifiers: this holds for a
  fresh fetcher, is kept by every call of \<open>save_invoice\<close> (the only method that touches
  the list or the set), by any sequence of subject types whether it ends in success or in
  an exception, and so holds at the end of every run.
\<close>

theorem new_invoices_unique:
  "records_unique (init_fetcher token file dir)
   \<and> (records_unique s \<longrightarrow> records_unique (snd (save_invoice w zf fname md s)))
   \<and> (records_unique s \<longrightarrow> records_unique (snd (fetch_subject_types w sts s)))
   \<and> records_unique (snd (fetch_invoices w (init_fetcher token file dir)))"
proof (intro conjI impI)
  show fresh: "records_unique (init_fetcher token file dir)"
    by (simp add: records_unique_def init_fetcher_def)
  show "records_unique (snd (save_invoice w zf fname md s))" if "records_unique s"
    using that save_invoice_grows [of w zf fname md s "fst (save_invoice w zf fname md s)"
        "snd (save_invoice w zf fname md s)"]
    by (simp add: grows_def)
  show "records_unique (snd (fetch_subject_types w sts s))" if "records_unique s"
    using that fetch_subject_types_proceeds [of w sts s "fst (fetch_subject_types w sts s)"
        "snd (fetch_subject_types w sts s)"]
    by (simp add: proceeds_def)
  show "records_unique (snd (fetch_invoices w (init_fetcher token file dir)))"
    using fetch_invoices_unique [OF fresh, of w
        "fst (fetch_invoices w (init_fetcher token file dir))"
        "snd (fetch_invoices w (init_fetcher token file dir))"]
    by simp
qed

theorem new_invoices_unique_witness:
  "records_unique demo_fetcher
   \<and> records_unique (snd (save_invoice demo_world [(''1111-AAAA.xml'', Inr [60, 62])]
        ''1111-AAAA.xml'' None demo_fetcher))
   \<and> records_unique (snd (fetch_subject_types demo_world SUBJECT_TYPES demo_fetcher))
   \<and> records_unique (snd (fetch_invoices demo_world (init_fetcher ''token'' None Map.empty)))"
proof -
  have fresh: "records_unique demo_fetcher"
    by (simp add: records_unique_def demo_fetcher_def init_fetcher_def)
  from new_invoices_unique [of "''token''" None Map.empty demo_fetcher demo_world
      "[(''1111-AAAA.xml'', Inr [60, 62])]" "''1111-AAAA.xml''" None SUBJECT_TYPES] fresh
  show ?thesis by simp
qed

section \<open>Materialising a package twice\<close>







section \<open>Persisting the continuation points\<close>

lemma save_state_file: "state_file (save_state s) = Some (state (save_state s))"
  by (simp add: save_state_def log_def)

lemma fetch_invoices_state_file:
  assumes run: "fetch_invoices w s = (res, s')"
  shows "case res of Inl e \<Rightarrow> state_file s' = state_file s
         | Inr summary \<Rightarrow> state_file s' = Some (state s')"
proof -
  obtain r1 s1 where auth: "authenticate w s = (r1, s1)" by fastforce
  from authenticate_frame [OF auth] have f1: "state_file s1 = state_file s" by auto
  obtain r2 s2 where roles: "fetch_subject_types w SUBJECT_TYPES s1 = (r2, s2)" by fastforce
  from fetch_subject_types_proceeds [OF roles] have f2: "state_file s2 = state_file s1"
    by (simp add: proceeds_def)
  show ?thesis
  proof (cases r1)
    case (Inl e)
    with auth have "fetch_invoices w s = (Inl e, s1)" by (simp add: fetch_invoices_def)
    with run have "res = Inl e" "s' = s1" by auto
    with f1 show ?thesis by simp
  next
    case authenticated: (Inr a)
    show ?thesis
    proof (cases r2)
      case (Inl e)
      with auth roles authenticated have "fetch_invoices w s = (Inl e, s2)"
        by (simp add: fetch_invoices_def)
      with run have "res = Inl e" "s' = s2" by auto
      with f1 f2 show ?thesis by simp
    next
      case (Inr u)
      with auth roles authenticated
      have "fetch_invoices w s = (Inr (format_output (save_state s2)), save_state s2)"
        by (simp add: fetch_invoices_def Let_def)
      with run have "res = Inr (format_output (save_state s2))" "s' = save_state s2"
        by auto
      then show ?thesis by (simp add: save_state_file)
    qed
  qed
qed

text \<open>
  C1, as the code has it. The state file is written once, at the end of a run in which the
  authentication and every subject type succeeded; it then holds the cursors of the
  fetcher. A run that raises, in the authentication or in any subject type, leaves the
  state file as it was at the start of the run.
\<close>

theorem state_saved_at_end_only:
  "(fst (fetch_invoices w s) = Inl e \<longrightarrow>
      state_file (snd (fetch_invoices w s)) = state_file s)
   \<and> (fst (fetch_invoices w s) = Inr summary \<longrightarrow>
      state_file (snd (fetch_invoices w s)) = Some (state (snd (fetch_invoices w s))))"
  using fetch_invoices_state_file [of w s "fst (fetch_invoices w s)" "snd (fetch_invoices w s)"]
  by auto

theorem state_saved_at_end_only_witness:
  "fst (fetch_invoices crash_world (init_fetcher ''token'' None Map.empty)) = Inl HTTPError
   \<and> state_file (snd (fetch_invoices crash_world (init_fetcher ''token'' None Map.empty))) =
       state_file (init_fetcher ''token'' None Map.empty)
   \<and> fst (fetch_invoices demo_world (init_fetcher ''token'' None Map.empty)) =
       Inr (1, [\<lparr>ksefNumber = ''1111-AAAA'', filename = ''1111-AAAA.xml''\<rparr>])
   \<and> state_file (snd (fetch_invoices demo_world (init_fetcher ''token'' None Map.empty))) =
       Some (state (snd (fetch_invoices demo_world (init_fetcher ''token'' None Map.empty))))"
proof -
  have crash:
    "fst (fetch_invoices crash_world (init_fetcher ''token'' None Map.empty)) = Inl HTTPError"
    by code_simp
  have good: "fst (fetch_invoices demo_world (init_fetcher ''token'' None Map.empty)) =
      Inr (1, [\<lparr>ksefNumber = ''1111-AAAA'', filename = ''1111-AAAA.xml''\<rparr>])"
    by code_simp
  from state_saved_at_end_only [of crash_world "init_fetcher ''token'' None Map.empty"
      HTTPError "(1, [\<lparr>ksefNumber = ''1111-AAAA'', filename = ''1111-AAAA.xml''\<rparr>])"]
    state_saved_at_end_only [of demo_world "init_fetcher ''token'' None Map.empty"
      HTTPError "(1, [\<lparr>ksefNumber = ''1111-AAAA'', filename = ''1111-AAAA.xml''\<rparr>])"]
    crash good
  show ?thesis by simp
qed

text \<open>
  C1, as the claim states it, fails. On the platform whose export request for
  \<^verbatim>\<open>Subject2\<close> is refused, a run from no state file authenticates, materialises the
  package of \<^verbatim>\<open>Subject1\<close> and advances its cursor, then raises in \<^verbatim>\<open>Subject2\<close>: the
  cursor of \<^verbatim>\<open>Subject1\<close> is in the fetcher, no state was saved and there is still no
  state file.
\<close>

theorem persist_after_each_role_counterexample:
  "fst (fetch_invoices crash_world (init_fetcher ''token'' None Map.empty)) = Inl HTTPError
   \<and> trace (snd (fetch_invoices crash_world (init_fetcher ''token'' None Map.empty))) =
       [ChallengeCall, SubmitAuthCall, AuthStatusCall ''auth'', Sleep 2,
        AuthStatusCall ''auth'', Sleep 2, AuthStatusCall ''auth'', RedeemCall,
        ExportCall ''Subject1'' ''2024-06-01T00:00:00+00:00'',
        ExportStatusCall ''Subject1'', Sleep 5, ExportStatusCall ''Subject1'', Sleep 5,
        ExportStatusCall ''Subject1'', Download ''https://part/1'',
        WriteFile ''1111-AAAA.xml'',
        ExportCall ''Subject2'' ''2024-06-01T00:00:00+00:00'']
   \<and> state (snd (fetch_invoices crash_world (init_fetcher ''token'' None Map.empty)))
       ''continuation_point_Subject1'' = Some ''2024-06-15T00:00:00Z''
   \<and> state_file (snd (fetch_invoices crash_world (init_fetcher ''token'' None Map.empty))) =
       None"
  by code_simp

end
